theory Spec2Isabelle
  imports Main
begin

section \<open>The fuzzable element protocol of boofuzz (ifuzzable.py)\<close>

text \<open>
  A shallow embedding of class \<open>IFuzzable\<close>. Python objects live in a store that
  every operation takes and returns; an exception is a value, and the store an operation
  leaves behind is returned with it, since a raise does not undo earlier writes.
\<close>

subsection \<open>Values, errors and objects\<close>

datatype pyval = PyNone | PyBool bool | PyInt int | PyStr string

datatype error = AttributeError string | KeyError string | TypeError string

text \<open>An instance attribute is either absent (\<open>hasattr\<close> is false) or holds a value.\<close>

datatype 'a attr = Absent | Present 'a

text \<open>
  An element. \<open>type_name\<close> is \<open>type(self).__name__\<close>. The fields \<open>priv_name\<close>,
  \<open>priv_context_path\<close> and \<open>priv_fuzzable\<close> are the instance attributes \<open>_name\<close>,
  \<open>_context_path\<close> and \<open>_fuzzable\<close>; \<open>None\<close> is Python's \<open>None\<close>.
  \<open>original_value\<close> and \<open>num_mutations\<close> are abstract in \<open>IFuzzable\<close>: the fields
  hold what the concrete variant's implementation yields on this element (\<open>PyNone\<close> when
  the variant inherits the stub, whose body is a bare \<open>return\<close>).
\<close>

record element =
  type_name :: string
  priv_name :: "string option attr"
  priv_context_path :: "string option attr"
  priv_fuzzable :: "bool attr"
  original_value :: pyval
  num_mutations :: pyval

text \<open>A \<open>Mutation\<close>: its attribute \<open>mutations\<close> is a dict from qualified names to values.\<close>

record mutation =
  mutations :: "string \<rightharpoonup> pyval"

type_synonym ref = nat

text \<open>
  The store: the class attribute \<open>IFuzzable.name_counter\<close> (one for the whole process),
  the elements and the \<open>Mutation\<close> objects, by reference.
\<close>

record state =
  name_counter :: int
  elements :: "ref \<Rightarrow> element"
  mutation_objects :: "ref \<Rightarrow> mutation"

type_synonym 'a result = "(error + 'a) \<times> state"

definition update_element :: "ref \<Rightarrow> (element \<Rightarrow> element) \<Rightarrow> state \<Rightarrow> state" where
  "update_element self f s = s\<lparr>elements := (elements s)(self := f (elements s self))\<rparr>"

subsection \<open>Built-ins of Python used by the class\<close>

text \<open>\<open>str(n)\<close> for an integer: decimal digits, with a leading minus sign when negative.\<close>

definition digit_char :: "nat \<Rightarrow> char" where
  "digit_char d = ''0123456789'' ! d"

function str_nat :: "nat \<Rightarrow> string" where
  "str_nat n = (if n < 10 then [digit_char n] else str_nat (n div 10) @ [digit_char (n mod 10)])"
  by pat_completeness auto
termination
  by (relation "measure id") auto

definition str_int :: "int \<Rightarrow> string" where
  "str_int i = (if i < 0 then CHR ''-'' # str_nat (nat (- i)) else str_nat (nat i))"

text \<open>
  \<open>filter(None, items)\<close> keeps the truthy items: \<open>None\<close> and the empty string are
  dropped. \<open>sep.join(items)\<close> puts the separator between consecutive items.
\<close>

fun filter_None :: "string option list \<Rightarrow> string list" where
  "filter_None [] = []"
| "filter_None (None # xs) = filter_None xs"
| "filter_None (Some x # xs) = (if x = [] then filter_None xs else x # filter_None xs)"

fun join :: "string \<Rightarrow> string list \<Rightarrow> string" where
  "join sep [] = []"
| "join sep [x] = x"
| "join sep (x # y # ys) = x @ sep @ join sep (y # ys)"

subsection \<open>Class creation\<close>

text \<open>
  \<open>IFuzzable\<close> is created by the metaclass \<open>DocStringInheritor\<close>, a subclass of
  \<open>type\<close>, and so is every class derived from it. A class body is a dictionary of
  members. A member is a function, a property or some other object; it carries its
  qualified name, its \<open>__doc__\<close> and whether it is marked abstract: a function by
  \<open>abc.abstractmethod\<close>, a property through its getter or by being an
  \<open>abc.abstractproperty\<close>. The \<open>__doc__\<close> of another object is the one its type shows
  and cannot be assigned.
\<close>

datatype kind = Function | Property | Data

record member =
  kind :: kind
  qualname :: string
  doc :: "string option"
  marked_abstract :: bool
  is_abstractproperty :: bool

definition isabstractmethod :: "member \<Rightarrow> bool" where
  "isabstractmethod a = (marked_abstract a \<or> is_abstractproperty a)"

datatype pyclass =
  PyClass (cls_name: string) (cls_bases: "pyclass list") (cls_doc: "string option")
    (cls_dict: "(string \<times> member) list") (cls_mro_tail: "pyclass list")
    (cls_abstractmethods: "string list")

definition mro :: "pyclass \<Rightarrow> pyclass list" where
  "mro c = c # cls_mro_tail c"

text \<open>
  The linearisation of the base classes that \<open>type.__new__\<close> computes (C3): repeatedly
  take the first head that is in the tail of no sequence; \<open>None\<close> when there is none.
\<close>

definition c3_good_head :: "'a list list \<Rightarrow> 'a \<Rightarrow> bool" where
  "c3_good_head seqs c = list_all (\<lambda>l. \<not> List.member (tl l) c) seqs"

function c3_merge :: "'a list list \<Rightarrow> 'a list option" where
  "c3_merge seqs =
     (let ss = filter (\<lambda>l. l \<noteq> []) seqs in
      if ss = [] then Some []
      else (case find (c3_good_head ss) (map hd ss) of
              None \<Rightarrow> None
            | Some c \<Rightarrow> map_option ((#) c) (c3_merge (map (\<lambda>l. if hd l = c then tl l else l) ss))))"
  by pat_completeness auto

termination c3_merge
proof (relation "measure (\<lambda>seqs. sum_list (map length seqs))")
  show "wf (measure (\<lambda>seqs. sum_list (map length seqs)))" by simp
next
  fix seqs :: "'a list list" and ss c
  assume ss: "ss = filter (\<lambda>l. l \<noteq> []) seqs" and "ss \<noteq> []"
    and f: "find (c3_good_head ss) (map hd ss) = Some c"
  let ?drop = "\<lambda>l. if hd l = c then tl l else l"
  have le: "sum_list (map length (map ?drop xs)) \<le> sum_list (map length xs)"
    for xs :: "'a list list"
    by (induction xs) auto
  have less: "sum_list (map length (map ?drop xs)) < sum_list (map length xs)"
    if "l \<in> set xs" "l \<noteq> []" "hd l = c" for l and xs :: "'a list list"
    using that
  proof (induction xs)
    case Nil
    then show ?case by simp
  next
    case (Cons a xs)
    show ?case
    proof (cases "a = l")
      case True
      obtain y ys where ly: "l = y # ys"
        using Cons.prems(2) by (cases l) auto
      have "length (?drop a) = length ys"
        using True ly Cons.prems(3) by simp
      moreover have "length a = Suc (length ys)"
        using True ly by simp
      moreover note le [of xs]
      ultimately show ?thesis by simp
    next
      case False
      with Cons have "sum_list (map length (map ?drop xs)) < sum_list (map length xs)"
        by simp
      moreover have "length (?drop a) \<le> length a" by simp
      ultimately show ?thesis by simp
    qed
  qed
  from f have "c \<in> set (map hd ss)"
    by (auto simp: find_Some_iff)
  then obtain l where l: "l \<in> set ss" "hd l = c" by auto
  with ss have "l \<noteq> []" by auto
  with l have "sum_list (map length (map ?drop ss)) < sum_list (map length ss)"
    by (intro less) auto
  also have "sum_list (map length ss) \<le> sum_list (map length seqs)"
    unfolding ss by (induction seqs) auto
  finally show "(map ?drop ss, seqs) \<in> measure (\<lambda>seqs. sum_list (map length seqs))"
    by simp
qed

text \<open>
  \<open>getattr\<close> on a class looks through its linearisation. \<open>type.__new__\<close> builds the
  class, with \<open>object\<close> as the base when none is given; it does not look at the abstract
  marks, and leaves \<open>__abstractmethods__\<close> empty (only \<open>abc.ABCMeta.__new__\<close> fills it).
  \<open>object.__new__\<close> refuses to build an instance of a class whose
  \<open>__abstractmethods__\<close> is not empty. Of the members of \<open>object\<close>, the ones a
  class body commonly redefines are listed, with the docstrings Python 3 gives them.
\<close>

definition truthy_doc :: "string option \<Rightarrow> bool" where
  "truthy_doc d = (case d of None \<Rightarrow> False | Some x \<Rightarrow> x \<noteq> [])"

definition class_getattr :: "pyclass \<Rightarrow> string \<Rightarrow> member option" where
  "class_getattr c attr =
     (case List.map_filter (\<lambda>k. map_of (cls_dict k) attr) (mro c) of
        [] \<Rightarrow> None
      | a # _ \<Rightarrow> Some a)"

definition object_class :: pyclass where
  "object_class = PyClass ''object'' [] (Some ''The most base type'')
     [(''__init__'', \<lparr>kind = Data, qualname = ''object.__init__'',
         doc = Some ''Initialize self.  See help(type(self)) for accurate signature.'',
         marked_abstract = False, is_abstractproperty = False\<rparr>),
      (''__repr__'', \<lparr>kind = Data, qualname = ''object.__repr__'',
         doc = Some ''Return repr(self).'', marked_abstract = False, is_abstractproperty = False\<rparr>),
      (''__str__'', \<lparr>kind = Data, qualname = ''object.__str__'',
         doc = Some ''Return str(self).'', marked_abstract = False, is_abstractproperty = False\<rparr>),
      (''__eq__'', \<lparr>kind = Data, qualname = ''object.__eq__'',
         doc = Some ''Return self==value.'', marked_abstract = False, is_abstractproperty = False\<rparr>),
      (''__hash__'', \<lparr>kind = Data, qualname = ''object.__hash__'',
         doc = Some ''Return hash(self).'', marked_abstract = False, is_abstractproperty = False\<rparr>)]
     [] []"

definition type_new ::
    "string \<Rightarrow> pyclass list \<Rightarrow> string option \<Rightarrow> (string \<times> member) list \<Rightarrow> error + pyclass" where
  "type_new name bases cdoc clsdict =
     (let bs = (if bases = [] then [object_class] else bases) in
      case c3_merge (map mro bs @ [bs]) of
        None \<Rightarrow> Inl (TypeError ''Cannot create a consistent method resolution order (MRO)'')
      | Some tail \<Rightarrow> Inr (PyClass name bs cdoc clsdict tail []))"

datatype pyobject = PyObject pyclass

definition instantiate :: "pyclass \<Rightarrow> error + pyobject" where
  "instantiate c =
     (if cls_abstractmethods c \<noteq> [] then Inl (TypeError ''Can't instantiate abstract class'')
      else Inr (PyObject c))"

text \<open>
  \<open>DocStringInheritor.__new__\<close>: a class without a docstring takes the first docstring
  found along the linearisations of its bases; a member without one takes the first
  docstring that a class along these linearisations shows for the same attribute name (a
  property is replaced by a new plain property, a function is updated in place); then
  \<open>type.__new__\<close> is called.
\<close>

definition inherit_member_doc :: "pyclass list \<Rightarrow> string \<Rightarrow> member \<Rightarrow> error + member" where
  "inherit_member_doc bases attr attribute =
     (if truthy_doc (doc attribute) then Inr attribute
      else (case find truthy_doc
                   (List.map_filter (\<lambda>mro_cls. map_option doc (class_getattr mro_cls attr))
                      (concat (map mro bases))) of
              None \<Rightarrow> Inr attribute
            | Some d \<Rightarrow>
                (case kind attribute of
                   Property \<Rightarrow> Inr (attribute\<lparr>doc := d, is_abstractproperty := False\<rparr>)
                 | Function \<Rightarrow> Inr (attribute\<lparr>doc := d\<rparr>)
                 | Data \<Rightarrow> Inl (AttributeError ''__doc__''))))"

fun inherit_docs :: "pyclass list \<Rightarrow> (string \<times> member) list \<Rightarrow> error + (string \<times> member) list" where
  "inherit_docs bases [] = Inr []"
| "inherit_docs bases ((attr, attribute) # rest) =
     (case inherit_member_doc bases attr attribute of
        Inl e \<Rightarrow> Inl e
      | Inr attribute' \<Rightarrow>
          (case inherit_docs bases rest of
             Inl e \<Rightarrow> Inl e
           | Inr rest' \<Rightarrow> Inr ((attr, attribute') # rest')))"

definition DocStringInheritor_new ::
    "string \<Rightarrow> pyclass list \<Rightarrow> string option \<Rightarrow> (string \<times> member) list \<Rightarrow> error + pyclass" where
  "DocStringInheritor_new name bases cdoc clsdict =
     (let cdoc' = (if truthy_doc cdoc then cdoc
                   else (case find truthy_doc (map cls_doc (concat (map mro bases))) of
                           None \<Rightarrow> cdoc
                         | Some d \<Rightarrow> d))
      in case inherit_docs bases clsdict of
           Inl e \<Rightarrow> Inl e
         | Inr clsdict' \<Rightarrow> type_new name bases cdoc' clsdict')"

text \<open>
  The body of class \<open>IFuzzable\<close>, in source order, with the docstrings of the source,
  and \<open>Broken\<close>, a variant that defines every operation marked abstract but
  \<open>render\<close>, without docstrings.
\<close>

definition py_def :: "string \<Rightarrow> string option \<Rightarrow> bool \<Rightarrow> member" where
  "py_def q d abstract =
     \<lparr>kind = Function, qualname = q, doc = d, marked_abstract = abstract, is_abstractproperty = False\<rparr>"

definition py_property :: "string \<Rightarrow> string option \<Rightarrow> bool \<Rightarrow> member" where
  "py_property q d abstract =
     \<lparr>kind = Property, qualname = q, doc = d, marked_abstract = abstract, is_abstractproperty = False\<rparr>"

definition py_abstractproperty :: "string \<Rightarrow> string option \<Rightarrow> member" where
  "py_abstractproperty q d =
     \<lparr>kind = Property, qualname = q, doc = d, marked_abstract = False, is_abstractproperty = True\<rparr>"

definition py_data :: "string option \<Rightarrow> member" where
  "py_data d = \<lparr>kind = Data, qualname = [], doc = d, marked_abstract = False, is_abstractproperty = False\<rparr>"

definition str_doc :: string where
  "str_doc = ''str(object='' @ [CHR 0x27, CHR 0x27] @ '') -> str''"

definition int_doc :: string where
  "int_doc = ''int([x]) -> integer''"

definition IFuzzable_doc :: string where
  "IFuzzable_doc = ''Describes a fuzzable message element or message.\<newline>\<newline>    The core functionality on which boofuzz runs:\<newline>\<newline>    1. mutations() -- iterate mutations.\<newline>    2. mutant_index, mutate(), render(), reset() are an older interface used to simulate mutations().\<newline>    3. render() returns either the normal value or the currently-being-mutated value.\<newline>    3. name() -- gets the specific element's name; may be replaced in the future.\<newline>    4. fuzzable() -- indicates whether an element should be fuzzed. This used to be checked externally, but is now\<newline>                     checked within mutations()\<newline>    5. original_value() -- used to get the default value of the element.\<newline>    6. num_mutations() -- Number of mutations that an element yields.\<newline>    7. __len__() -- an element should describe its own size when rendered.\<newline>    8. __repr__() -- for nice readable user interfaces\<newline>    9. __nonzero__() -- Allows one to use `if someFuzzableObject` to check for null. Questionable practice.\<newline>\<newline>    The mutation and original_value functions are the most fundamental.\<newline>\<newline>    ''"

definition IFuzzable_dict :: "(string \<times> member) list" where
  "IFuzzable_dict =
     [(''__module__'', py_data (Some str_doc)),
      (''__qualname__'', py_data (Some str_doc)),
      (''name_counter'', py_data (Some int_doc)),
      (''fuzzable'', py_property ''IFuzzable.fuzzable'' (Some ''If False, this element should not be mutated in normal fuzzing.'') False),
      (''mutations'', py_abstractproperty ''IFuzzable.mutations'' (Some ''Yields mutations.'')),
      (''mutant_index'', py_property ''IFuzzable.mutant_index'' (Some ''Index of current mutation. 0 => normal value. 1 => first mutation.\<newline>        '') False),
      (''original_value'', py_property ''IFuzzable.original_value'' (Some ''Original, non-mutated value of element.'') True),
      (''name'', py_property ''IFuzzable.name'' (Some ''Element name, should be specific for each instance.'') False),
      (''qualified_name'', py_property ''IFuzzable.qualified_name'' None False),
      (''context_path'', py_property ''IFuzzable.context_path'' None False),
      (''mutate'', py_def ''IFuzzable.mutate'' (Some ''Mutate this element. Returns True each time and False on completion.\<newline>\<newline>        Use reset() after completing mutations to bring back to original state.\<newline>\<newline>        Mutated values available through render().\<newline>\<newline>        Returns:\<newline>            bool: True if there are mutations left, False otherwise.\<newline>        '') False),
      (''num_mutations'', py_def ''IFuzzable.num_mutations'' (Some ''Return the total number of mutations for this element.\<newline>\<newline>        Returns:\<newline>            int: Number of mutated forms this primitive can take\<newline>        '') True),
      (''render'', py_def ''IFuzzable.render'' (Some ''Return rendered value. Equal to original value after reset().\<newline>        '') True),
      (''encode'', py_def ''IFuzzable.encode'' None False),
      (''render_mutated'', py_def ''IFuzzable.render_mutated'' (Some ''Render after applying mutation, if applicable.'') False),
      (''get_child_data'', py_def ''IFuzzable.get_child_data'' None False),
      (''reset'', py_def ''IFuzzable.reset'' (Some ''Reset element to pre-mutation state.'') False),
      (''__repr__'', py_def ''IFuzzable.__repr__'' None True),
      (''__len__'', py_def ''IFuzzable.__len__'' (Some ''Length of field. May vary if mutate() changes the length.\<newline>\<newline>        Returns:\<newline>            int: Length of element (length of mutated element if mutated).\<newline>        '') True),
      (''__bool__'', py_def ''IFuzzable.__bool__'' (Some ''Make sure instances evaluate to True even if __len__ is zero.\<newline>\<newline>        Design Note: Exists in case some wise guy uses `if my_element:` to\<newline>        check for null value.\<newline>\<newline>        Returns:\<newline>            bool: True\<newline>        '') True)]"

definition IFuzzable_class :: pyclass where
  "IFuzzable_class =
     projr (DocStringInheritor_new ''IFuzzable'' [object_class] (Some IFuzzable_doc) IFuzzable_dict)"

definition Broken_dict :: "(string \<times> member) list" where
  "Broken_dict =
     [(''__module__'', py_data (Some str_doc)),
      (''__qualname__'', py_data (Some str_doc)),
      (''mutations'', py_property ''Broken.mutations'' None False),
      (''original_value'', py_property ''Broken.original_value'' None False),
      (''num_mutations'', py_def ''Broken.num_mutations'' None False),
      (''__repr__'', py_def ''Broken.__repr__'' None False),
      (''__len__'', py_def ''Broken.__len__'' None False),
      (''__bool__'', py_def ''Broken.__bool__'' None False)]"

definition Broken_class :: pyclass where
  "Broken_class = projr (DocStringInheritor_new ''Broken'' [IFuzzable_class] None Broken_dict)"

subsection \<open>The operations of \<open>IFuzzable\<close>\<close>

text \<open>
  Each operation that \<open>IFuzzable\<close> defines, as it defines it: what an element runs
  whose variant does not redefine the operation. The first argument is the reference of
  \<open>self\<close>. Where \<open>render_mutated\<close> calls \<open>self.get_child_data\<close> and
  \<open>self.encode\<close>, the ones of the element's variant run; they are parameters.
\<close>

text \<open>\<open>fuzzable\<close>: returns \<open>self._fuzzable\<close>.\<close>

definition fuzzable :: "ref \<Rightarrow> state \<Rightarrow> bool result" where
  "fuzzable self s =
     (case priv_fuzzable (elements s self) of
        Absent \<Rightarrow> (Inl (AttributeError ''_fuzzable''), s)
      | Present b \<Rightarrow> (Inr b, s))"

text \<open>\<open>mutant_index\<close>: the body is a bare \<open>return\<close>.\<close>

definition mutant_index :: "ref \<Rightarrow> state \<Rightarrow> pyval result" where
  "mutant_index self s = (Inr PyNone, s)"

text \<open>
  \<open>name\<close>: when \<open>_name\<close> is \<open>None\<close>, the counter is incremented and the name becomes
  the type's name followed by the new counter value.
\<close>

definition name :: "ref \<Rightarrow> state \<Rightarrow> string result" where
  "name self s =
     (case priv_name (elements s self) of
        Absent \<Rightarrow> (Inl (AttributeError ''_name''), s)
      | Present (Some n) \<Rightarrow> (Inr n, s)
      | Present None \<Rightarrow>
          (let s1 = s\<lparr>name_counter := name_counter s + 1\<rparr>;
               n = type_name (elements s1 self) @ str_int (name_counter s1);
               s2 = update_element self (\<lambda>e. e\<lparr>priv_name := Present (Some n)\<rparr>) s1
           in (Inr n, s2)))"

text \<open>
  \<open>qualified_name\<close>: creates \<open>_context_path\<close> as \<open>None\<close> when the attribute is
  absent, then reads it, then reads \<open>name\<close>, and joins the truthy ones with a dot.
\<close>

definition qualified_name :: "ref \<Rightarrow> state \<Rightarrow> string result" where
  "qualified_name self s =
     (let s1 = (case priv_context_path (elements s self) of
                  Absent \<Rightarrow> update_element self (\<lambda>e. e\<lparr>priv_context_path := Present None\<rparr>) s
                | Present _ \<Rightarrow> s)
      in case priv_context_path (elements s1 self) of
           Absent \<Rightarrow> (Inl (AttributeError ''_context_path''), s1)
         | Present cp \<Rightarrow>
             (case name self s1 of
                (Inl e, s2) \<Rightarrow> (Inl e, s2)
              | (Inr n, s2) \<Rightarrow> (Inr (join ''.'' (filter_None [cp, Some n])), s2)))"

text \<open>\<open>context_path\<close>, the getter and the setter.\<close>

definition context_path :: "ref \<Rightarrow> state \<Rightarrow> string option result" where
  "context_path self s =
     (case priv_context_path (elements s self) of
        Absent \<Rightarrow> (Inl (AttributeError ''_context_path''), s)
      | Present cp \<Rightarrow> (Inr cp, s))"

definition set_context_path :: "ref \<Rightarrow> string option \<Rightarrow> state \<Rightarrow> unit result" where
  "set_context_path self x s =
     (Inr (), update_element self (\<lambda>e. e\<lparr>priv_context_path := Present x\<rparr>) s)"

text \<open>\<open>mutate\<close> and \<open>reset\<close>: the bodies are a bare \<open>return\<close>.\<close>

definition mutate :: "ref \<Rightarrow> state \<Rightarrow> pyval result" where
  "mutate self s = (Inr PyNone, s)"

definition reset :: "ref \<Rightarrow> state \<Rightarrow> pyval result" where
  "reset self s = (Inr PyNone, s)"

text \<open>
  \<open>render\<close> as \<open>IFuzzable\<close> defines it: marked abstract, the body is a bare
  \<open>return\<close>. An element of a variant that does not define \<open>render\<close> runs this one.
\<close>

definition render :: "ref \<Rightarrow> state \<Rightarrow> pyval result" where
  "render self s = (Inr PyNone, s)"

text \<open>
  \<open>encode\<close> and \<open>get_child_data\<close> are the hooks that \<open>render_mutated\<close> calls on
  \<open>self\<close>, so the ones of the element's variant run. A variant supplies both; each
  takes the store and returns the store it leaves, and is free to read and to write
  anything in it, the \<open>Mutation\<close> it is handed included.
\<close>

record variant =
  v_get_child_data :: "ref \<Rightarrow> ref \<Rightarrow> state \<Rightarrow> (error + pyval) \<times> state"
  v_encode :: "ref \<Rightarrow> pyval \<Rightarrow> pyval \<Rightarrow> state \<Rightarrow> (error + pyval) \<times> state"

text \<open>
  The hooks as \<open>IFuzzable\<close> defines them: \<open>encode\<close> returns the value,
  \<open>get_child_data\<close> returns \<open>None\<close>. \<open>IFuzzable_variant\<close> is a variant that
  redefines neither.
\<close>

definition encode :: "ref \<Rightarrow> pyval \<Rightarrow> pyval \<Rightarrow> state \<Rightarrow> pyval result" where
  "encode self val child_data s = (Inr val, s)"

definition get_child_data :: "ref \<Rightarrow> ref \<Rightarrow> state \<Rightarrow> pyval result" where
  "get_child_data self m s = (Inr PyNone, s)"

definition IFuzzable_variant :: variant where
  "IFuzzable_variant = \<lparr>v_get_child_data = get_child_data, v_encode = encode\<rparr>"

text \<open>
  \<open>render_mutated\<close>, for an element of variant \<open>V\<close>: \<open>self.get_child_data\<close> and
  \<open>self.encode\<close> are the hooks of \<open>V\<close>. The qualified name is read for the membership
  test and, when the test succeeds, a second time for the lookup; a missing key there is
  a \<open>KeyError\<close>.
\<close>

definition render_mutated :: "variant \<Rightarrow> ref \<Rightarrow> ref \<Rightarrow> state \<Rightarrow> pyval result" where
  "render_mutated V self m s =
     (case v_get_child_data V self m s of
        (Inl e, s0) \<Rightarrow> (Inl e, s0)
      | (Inr child_data, s0) \<Rightarrow>
          (case qualified_name self s0 of
             (Inl e, s1) \<Rightarrow> (Inl e, s1)
           | (Inr qn, s1) \<Rightarrow>
               (if mutations (mutation_objects s1 m) qn \<noteq> None then
                  (case qualified_name self s1 of
                     (Inl e, s2) \<Rightarrow> (Inl e, s2)
                   | (Inr qn2, s2) \<Rightarrow>
                       (case mutations (mutation_objects s2 m) qn2 of
                          None \<Rightarrow> (Inl (KeyError qn2), s2)
                        | Some v \<Rightarrow> v_encode V self v child_data s2))
                else v_encode V self (original_value (elements s1 self)) child_data s1)))"

subsection \<open>Sequences of calls\<close>

text \<open>
  A caller's use of the interface as \<open>IFuzzable\<close> defines it: any operation above, on
  any element and any \<open>Mutation\<close> of the store, the hooks being the ones of
  \<open>IFuzzable\<close>. \<open>run_call\<close> performs one call and keeps the store it leaves (a raised
  exception is caught by the caller); \<open>run_calls\<close> performs a sequence.
\<close>

datatype call =
    Fuzzable ref
  | MutantIndex ref
  | Name ref
  | QualifiedName ref
  | ContextPath ref
  | SetContextPath ref "string option"
  | Mutate ref
  | Reset ref
  | Render ref
  | Encode ref pyval pyval
  | GetChildData ref ref
  | RenderMutated ref ref

fun run_call :: "call \<Rightarrow> state \<Rightarrow> state" where
  "run_call (Fuzzable r) s = snd (fuzzable r s)"
| "run_call (MutantIndex r) s = snd (mutant_index r s)"
| "run_call (Name r) s = snd (name r s)"
| "run_call (QualifiedName r) s = snd (qualified_name r s)"
| "run_call (ContextPath r) s = snd (context_path r s)"
| "run_call (SetContextPath r x) s = snd (set_context_path r x s)"
| "run_call (Mutate r) s = snd (mutate r s)"
| "run_call (Reset r) s = snd (reset r s)"
| "run_call (Render r) s = snd (render r s)"
| "run_call (Encode r v c) s = snd (encode r v c s)"
| "run_call (GetChildData r m) s = snd (get_child_data r m s)"
| "run_call (RenderMutated r m) s = snd (render_mutated IFuzzable_variant r m s)"

definition run_calls :: "call list \<Rightarrow> state \<Rightarrow> state" where
  "run_calls cs s = fold run_call cs s"

subsection \<open>Auxiliary definitions for the proofs\<close>

text \<open>The first statement of \<open>qualified_name\<close>, as a store transformer.\<close>

definition init_context_path :: "ref \<Rightarrow> state \<Rightarrow> state" where
  "init_context_path self s =
     (case priv_context_path (elements s self) of
        Absent \<Rightarrow> update_element self (\<lambda>e. e\<lparr>priv_context_path := Present None\<rparr>) s
      | Present _ \<Rightarrow> s)"

text \<open>Decimal digits read back, to show that \<open>str_int\<close> is injective.\<close>

definition digit_val :: "char \<Rightarrow> nat" where
  "digit_val c = of_char c - 48"

definition nat_of_digits :: "string \<Rightarrow> nat" where
  "nat_of_digits cs = foldl (\<lambda>a c. 10 * a + digit_val c) 0 cs"

subsection \<open>Example stores\<close>

text \<open>
  Element 0 is named \<open>len\<close> under the context path \<open>header\<close>; element 1 was given
  the empty string as its name; every other element is a freshly built \<open>String\<close> with
  no name and no context path yet. \<open>Mutation\<close> 0 replaces \<open>header.len\<close>, 1 replaces
  \<open>header.payload\<close>, 3 replaces \<open>trailer.crc\<close>, the others are empty.
\<close>

definition header_len :: element where
  "header_len = \<lparr>type_name = ''Size'', priv_name = Present (Some ''len''),
     priv_context_path = Present (Some ''header''), priv_fuzzable = Present True,
     original_value = PyInt 4, num_mutations = PyInt 3\<rparr>"

definition empty_named :: element where
  "empty_named = \<lparr>type_name = ''Static'', priv_name = Present (Some []),
     priv_context_path = Present (Some ''header''), priv_fuzzable = Present False,
     original_value = PyStr ''x'', num_mutations = PyInt 0\<rparr>"

definition fresh_string :: element where
  "fresh_string = \<lparr>type_name = ''String'', priv_name = Present None,
     priv_context_path = Absent, priv_fuzzable = Present True,
     original_value = PyStr ''abc'', num_mutations = PyInt 3\<rparr>"

definition example_state :: state where
  "example_state = \<lparr>name_counter = 0,
     elements = (\<lambda>r. if r = 0 then header_len else if r = 1 then empty_named else fresh_string),
     mutation_objects = (\<lambda>m. if m = 0 then \<lparr>mutations = [''header.len'' \<mapsto> PyInt 9999]\<rparr>
                             else if m = 1 then \<lparr>mutations = [''header.payload'' \<mapsto> PyStr ''AAAA'']\<rparr>
                             else if m = 3 then \<lparr>mutations = [''trailer.crc'' \<mapsto> PyInt 7]\<rparr>
                             else \<lparr>mutations = Map.empty\<rparr>)\<rparr>"

subsection \<open>Example variants\<close>

text \<open>
  \<open>Prefix_variant\<close>: a length field rendered before the payload that follows it in the
  same block. Its \<open>get_child_data\<close> gives the payload as the \<open>Mutation\<close> at hand renders
  it, the replacement of \<open>header.payload\<close> when there is one and the payload's default
  \<open>xx\<close> otherwise; its \<open>encode\<close> writes the value, a colon and the payload. Both only
  read the store.
\<close>

definition Prefix_get_child_data :: "ref \<Rightarrow> ref \<Rightarrow> state \<Rightarrow> pyval result" where
  "Prefix_get_child_data self m s =
     (Inr (case mutations (mutation_objects s m) ''header.payload'' of
             None \<Rightarrow> PyStr ''xx''
           | Some v \<Rightarrow> v), s)"

definition Prefix_encode :: "ref \<Rightarrow> pyval \<Rightarrow> pyval \<Rightarrow> state \<Rightarrow> pyval result" where
  "Prefix_encode self val child_data s =
     (Inr (case val of
             PyInt n \<Rightarrow> (case child_data of
                          PyStr p \<Rightarrow> PyStr (str_int n @ '':'' @ p)
                        | _ \<Rightarrow> val)
           | _ \<Rightarrow> val), s)"

definition Prefix_variant :: variant where
  "Prefix_variant = \<lparr>v_get_child_data = Prefix_get_child_data, v_encode = Prefix_encode\<rparr>"

text \<open>
  \<open>Marking_variant\<close>: its \<open>get_child_data\<close> records in the \<open>Mutation\<close> it is handed
  that the element was visited (\<open>mutation.mutations['visited'] = True\<close>) and returns
  \<open>None\<close>; its \<open>encode\<close> is the one of \<open>IFuzzable\<close>.
\<close>

definition Marking_get_child_data :: "ref \<Rightarrow> ref \<Rightarrow> state \<Rightarrow> pyval result" where
  "Marking_get_child_data self m s =
     (Inr PyNone,
      s\<lparr>mutation_objects := (mutation_objects s)
           (m := \<lparr>mutations = (mutations (mutation_objects s m))(''visited'' \<mapsto> PyBool True)\<rparr>)\<rparr>)"

definition Marking_variant :: variant where
  "Marking_variant = \<lparr>v_get_child_data = Marking_get_child_data, v_encode = encode\<rparr>"

section \<open>Properties\<close>


declare str_nat.simps [simp del]

declare c3_merge.simps [simp del]

lemma name_named: "name self s = (Inr n, s1) \<Longrightarrow> priv_name (elements s1 self) = Present (Some n)"
  by (auto simp: name_def update_element_def Let_def split: attr.splits option.splits)

lemma name_of_named: "priv_name (elements s self) = Present (Some n) \<Longrightarrow> name self s = (Inr n, s)"
  by (simp add: name_def)

lemma name_keeps_named:
  "priv_name (elements s r) = Present (Some n) \<Longrightarrow>
   priv_name (elements (snd (name self s)) r) = Present (Some n)"
  by (auto simp: name_def update_element_def Let_def split: attr.splits option.splits)

lemma name_context_path [simp]:
  "priv_context_path (elements (snd (name self s)) r) = priv_context_path (elements s r)"
  by (auto simp: name_def update_element_def Let_def split: attr.splits option.splits)

lemma name_type_name [simp]:
  "type_name (elements (snd (name self s)) r) = type_name (elements s r)"
  by (auto simp: name_def update_element_def Let_def split: attr.splits option.splits)

lemma name_original_value [simp]:
  "original_value (elements (snd (name self s)) r) = original_value (elements s r)"
  by (auto simp: name_def update_element_def Let_def split: attr.splits option.splits)

lemma name_mutation_objects [simp]:
  "mutation_objects (snd (name self s)) = mutation_objects s"
  by (auto simp: name_def update_element_def Let_def split: attr.splits option.splits)

lemma name_counter_mono: "name_counter s \<le> name_counter (snd (name self s))"
  by (auto simp: name_def update_element_def Let_def split: attr.splits option.splits)

lemma name_other_priv_name:
  "r \<noteq> self \<Longrightarrow> priv_name (elements (snd (name self s)) r) = priv_name (elements s r)"
  by (auto simp: name_def update_element_def Let_def split: attr.splits option.splits)

lemma qualified_name_alt:
  "qualified_name self s =
    (let s1 = init_context_path self s;
         cp = (case priv_context_path (elements s self) of Absent \<Rightarrow> None | Present c \<Rightarrow> c)
     in (map_sum id (\<lambda>n. join ''.'' (filter_None [cp, Some n])) (fst (name self s1)), snd (name self s1)))"
  by (auto simp: qualified_name_def init_context_path_def update_element_def Let_def split: attr.splits prod.splits sum.splits)

lemma qualified_name_idem:
  assumes "qualified_name self s = (Inr qn, s1)"
  shows "qualified_name self s1 = (Inr qn, s1)"
  using assms
  by (auto simp: qualified_name_def name_def update_element_def Let_def
           split: attr.splits option.splits prod.splits sum.splits)

lemma qualified_name_mutation_objects [simp]:
  "mutation_objects (snd (qualified_name self s)) = mutation_objects s"
  by (auto simp: qualified_name_def name_def update_element_def Let_def
           split: attr.splits option.splits prod.splits sum.splits)

lemma qualified_name_original_value [simp]:
  "original_value (elements (snd (qualified_name self s)) r) = original_value (elements s r)"
  by (auto simp: qualified_name_def name_def update_element_def Let_def
           split: attr.splits option.splits prod.splits sum.splits)

lemma render_mutated_hook_error:
  assumes "v_get_child_data V self m s = (Inl e, s0)"
  shows "render_mutated V self m s = (Inl e, s0)"
  using assms by (simp add: render_mutated_def)

lemma render_mutated_name_error:
  assumes "v_get_child_data V self m s = (Inr cd, s0)"
    and "qualified_name self s0 = (Inl e, s1)"
  shows "render_mutated V self m s = (Inl e, s1)"
  using assms by (simp add: render_mutated_def)

lemma render_mutated_dispatch:
  assumes "v_get_child_data V self m s = (Inr cd, s0)"
    and "qualified_name self s0 = (Inr qn, s1)"
  shows "render_mutated V self m s =
           v_encode V self (case mutations (mutation_objects s0 m) qn of
                              None \<Rightarrow> original_value (elements s0 self)
                            | Some v \<Rightarrow> v) cd s1"
proof -
  have mo: "mutation_objects s1 = mutation_objects s0"
    using qualified_name_mutation_objects [of self s0] assms(2) by simp
  have ov: "original_value (elements s1 self) = original_value (elements s0 self)"
    using qualified_name_original_value [of self s0 self] assms(2) by simp
  have again: "qualified_name self s1 = (Inr qn, s1)"
    using assms(2) by (rule qualified_name_idem)
  show ?thesis
    by (simp add: render_mutated_def assms again mo ov split: option.splits)
qed

lemma render_mutated_error:
  assumes "qualified_name self s = (Inl e, s1)"
  shows "render_mutated IFuzzable_variant self m s = (Inl e, s1)"
  using assms
  by (simp add: render_mutated_name_error [where ?s0.0 = s and cd = PyNone]
                IFuzzable_variant_def get_child_data_def)

lemma render_mutated_value:
  assumes "qualified_name self s = (Inr qn, s1)"
  shows "render_mutated IFuzzable_variant self m s =
           (Inr (case mutations (mutation_objects s m) qn of
                   None \<Rightarrow> original_value (elements s self)
                 | Some v \<Rightarrow> v), s1)"
proof -
  have "v_get_child_data IFuzzable_variant self m s = (Inr PyNone, s)"
    by (simp add: IFuzzable_variant_def get_child_data_def)
  from render_mutated_dispatch [OF this assms] show ?thesis
    by (simp add: IFuzzable_variant_def encode_def)
qed

lemma render_mutated_snd:
  "snd (render_mutated IFuzzable_variant self m s) = snd (qualified_name self s)"
proof (cases "qualified_name self s")
  case (Pair r s1)
  then show ?thesis
    by (cases r) (simp_all add: render_mutated_error render_mutated_value)
qed

lemma lt10: "(d::nat) < 10 \<Longrightarrow> d \<in> {0,1,2,3,4,5,6,7,8,9}"
  by auto

lemma digit_val_digit_char: "d < 10 \<Longrightarrow> digit_val (digit_char d) = d"
  using lt10[of d] by (auto simp: digit_val_def digit_char_def)

lemma digit_char_not_minus: "d < 10 \<Longrightarrow> digit_char d \<noteq> CHR ''-''"
  using lt10[of d] by (auto simp: digit_char_def)

lemma nat_of_digits_str_nat: "nat_of_digits (str_nat n) = n"
proof (induction n rule: str_nat.induct)
  case (1 n)
  show ?case
  proof (cases "n < 10")
    case True
    then show ?thesis
      by (subst str_nat.simps) (simp add: nat_of_digits_def digit_val_digit_char)
  next
    case False
    then have "nat_of_digits (str_nat (n div 10)) = n div 10"
      using 1 by simp
    then show ?thesis using False
      by (subst str_nat.simps) (simp add: nat_of_digits_def digit_val_digit_char)
  qed
qed

lemma str_nat_inj: "str_nat a = str_nat b \<Longrightarrow> a = b"
proof -
  assume "str_nat a = str_nat b"
  then have "nat_of_digits (str_nat a) = nat_of_digits (str_nat b)"
    by (rule arg_cong)
  then show "a = b"
    by (simp only: nat_of_digits_str_nat)
qed

lemma hd_str_nat: "hd (str_nat n) \<noteq> CHR ''-''"
proof (induction n rule: str_nat.induct)
  case (1 n)
  show ?case
  proof (cases "n < 10")
    case True
    then show ?thesis
      by (subst str_nat.simps) (simp add: digit_char_not_minus)
  next
    case False
    have ne: "str_nat (n div 10) \<noteq> []"
      by (subst str_nat.simps) simp
    from False 1 have "hd (str_nat (n div 10)) \<noteq> CHR ''-''" by simp
    then show ?thesis using False ne
      by (subst str_nat.simps) simp
  qed
qed

lemma str_int_inj: "str_int a = str_int b \<Longrightarrow> a = b"
proof -
  assume h: "str_int a = str_int b"
  have neg: "\<And>x y. CHR ''-'' # str_nat x \<noteq> str_nat y"
    using hd_str_nat by (metis list.sel(1))
  show ?thesis
  proof (cases "a < 0")
    case True
    show ?thesis
    proof (cases "b < 0")
      case True
      with \<open>a < 0\<close> h have "nat (- a) = nat (- b)"
        by (simp add: str_int_def str_nat_inj)
      with True \<open>a < 0\<close> show ?thesis by simp
    next
      case False
      with \<open>a < 0\<close> h neg show ?thesis by (simp add: str_int_def)
    qed
  next
    case False
    show ?thesis
    proof (cases "b < 0")
      case True
      with \<open>\<not> a < 0\<close> h neg[of "nat (- b)" "nat a"] show ?thesis by (simp add: str_int_def)
    next
      case False
      with \<open>\<not> a < 0\<close> h have "nat a = nat b"
        by (simp add: str_int_def str_nat_inj)
      with False \<open>\<not> a < 0\<close> show ?thesis by simp
    qed
  qed
qed

lemma qualified_name_state:
  "snd (qualified_name self s) = snd (name self (init_context_path self s))"
  by (simp add: qualified_name_alt Let_def)

lemma init_context_path_priv_name [simp]:
  "priv_name (elements (init_context_path self s) r) = priv_name (elements s r)"
  by (auto simp: init_context_path_def update_element_def split: attr.splits)

lemma init_context_path_type_name [simp]:
  "type_name (elements (init_context_path self s) r) = type_name (elements s r)"
  by (auto simp: init_context_path_def update_element_def split: attr.splits)

lemma init_context_path_name_counter [simp]:
  "name_counter (init_context_path self s) = name_counter s"
  by (auto simp: init_context_path_def update_element_def split: attr.splits)

lemma run_call_cases:
  "run_call c s = s \<or> (\<exists>r. run_call c s = snd (name r s))
   \<or> (\<exists>r. run_call c s = snd (name r (init_context_path r s)))
   \<or> (\<exists>r x. run_call c s = update_element r (\<lambda>e. e\<lparr>priv_context_path := Present x\<rparr>) s)"
proof (cases c)
  case (Fuzzable r)
  then show ?thesis by (simp add: fuzzable_def split: attr.splits)
next
  case (ContextPath r)
  then show ?thesis by (simp add: context_path_def split: attr.splits)
next
  case (SetContextPath r x)
  then show ?thesis by (auto simp: set_context_path_def)
next
  case (QualifiedName r)
  then show ?thesis by (auto simp: qualified_name_state)
next
  case (RenderMutated r m)
  then show ?thesis by (auto simp: render_mutated_snd qualified_name_state)
qed (auto simp: mutant_index_def mutate_def reset_def render_def encode_def get_child_data_def)

lemma run_call_keeps_named:
  assumes "priv_name (elements s r) = Present (Some n)"
  shows "priv_name (elements (run_call c s) r) = Present (Some n)"
  using run_call_cases [of c s] assms
  by (auto simp: name_keeps_named update_element_def)

lemma run_calls_keeps_named:
  "priv_name (elements s r) = Present (Some n) \<Longrightarrow>
   priv_name (elements (run_calls cs s) r) = Present (Some n)"
  unfolding run_calls_def
  by (induction cs arbitrary: s) (simp_all add: run_call_keeps_named)

lemma run_call_type_name [simp]:
  "type_name (elements (run_call c s) r) = type_name (elements s r)"
  using run_call_cases [of c s] by (auto simp: update_element_def)

lemma run_calls_type_name [simp]:
  "type_name (elements (run_calls cs s) r) = type_name (elements s r)"
  unfolding run_calls_def by (induction cs arbitrary: s) simp_all

lemma name_later:
  assumes "k \<le> name_counter s"
    and "priv_name (elements s b) = Present None \<or>
         (\<exists>j. k < j \<and> j \<le> name_counter s \<and>
              priv_name (elements s b) = Present (Some (type_name (elements s b) @ str_int j)))"
  shows "k \<le> name_counter (snd (name r s)) \<and>
         (priv_name (elements (snd (name r s)) b) = Present None \<or>
          (\<exists>j. k < j \<and> j \<le> name_counter (snd (name r s)) \<and>
               priv_name (elements (snd (name r s)) b)
                 = Present (Some (type_name (elements s b) @ str_int j))))"
proof (cases "priv_name (elements s r) = Present None")
  case False
  then have "snd (name r s) = s"
    by (auto simp: name_def split: attr.splits option.splits)
  with assms show ?thesis by simp
next
  case True
  then have st: "snd (name r s) =
      update_element r (\<lambda>e. e\<lparr>priv_name := Present (Some (type_name (elements s r) @ str_int (name_counter s + 1)))\<rparr>)
        (s\<lparr>name_counter := name_counter s + 1\<rparr>)"
    by (simp add: name_def Let_def update_element_def)
  show ?thesis
  proof (cases "r = b")
    case True
    with st assms(1) show ?thesis
      by (auto simp: update_element_def intro!: exI [of _ "name_counter s + 1"])
  next
    case False
    with st assms show ?thesis
      by (auto simp: update_element_def)
  qed
qed

lemma run_call_later:
  assumes "k \<le> name_counter s"
    and "priv_name (elements s b) = Present None \<or>
         (\<exists>j. k < j \<and> j \<le> name_counter s \<and>
              priv_name (elements s b) = Present (Some (type_name (elements s b) @ str_int j)))"
  shows "k \<le> name_counter (run_call c s) \<and>
         (priv_name (elements (run_call c s) b) = Present None \<or>
          (\<exists>j. k < j \<and> j \<le> name_counter (run_call c s) \<and>
               priv_name (elements (run_call c s) b)
                 = Present (Some (type_name (elements s b) @ str_int j))))"
proof -
  consider (same) "run_call c s = s"
    | (nm) r where "run_call c s = snd (name r s)"
    | (qn) r where "run_call c s = snd (name r (init_context_path r s))"
    | (cp) r x where "run_call c s = update_element r (\<lambda>e. e\<lparr>priv_context_path := Present x\<rparr>) s"
    using run_call_cases [of c s] by blast
  then show ?thesis
  proof cases
    case same
    with assms show ?thesis by simp
  next
    case (nm r)
    with name_later [OF assms, of r] show ?thesis by simp
  next
    case (qn r)
    have "k \<le> name_counter (init_context_path r s)"
      using assms(1) by simp
    moreover have "priv_name (elements (init_context_path r s) b) = Present None \<or>
         (\<exists>j. k < j \<and> j \<le> name_counter (init_context_path r s) \<and>
              priv_name (elements (init_context_path r s) b)
                = Present (Some (type_name (elements (init_context_path r s) b) @ str_int j)))"
      using assms(2) by simp
    ultimately show ?thesis
      using name_later [of k "init_context_path r s" b r] qn by simp
  next
    case (cp r x)
    with assms show ?thesis by (auto simp: update_element_def)
  qed
qed

lemma run_calls_later:
  assumes "k \<le> name_counter s"
    and "priv_name (elements s b) = Present None \<or>
         (\<exists>j. k < j \<and> j \<le> name_counter s \<and>
              priv_name (elements s b) = Present (Some (type_name (elements s b) @ str_int j)))"
  shows "k \<le> name_counter (run_calls cs s) \<and>
         (priv_name (elements (run_calls cs s) b) = Present None \<or>
          (\<exists>j. k < j \<and> j \<le> name_counter (run_calls cs s) \<and>
               priv_name (elements (run_calls cs s) b)
                 = Present (Some (type_name (elements s b) @ str_int j))))"
  using assms
proof (induction cs arbitrary: s)
  case Nil
  then show ?case by (simp add: run_calls_def)
next
  case (Cons c cs)
  have step: "k \<le> name_counter (run_call c s) \<and>
         (priv_name (elements (run_call c s) b) = Present None \<or>
          (\<exists>j. k < j \<and> j \<le> name_counter (run_call c s) \<and>
               priv_name (elements (run_call c s) b)
                 = Present (Some (type_name (elements (run_call c s) b) @ str_int j))))"
    using run_call_later [OF Cons.prems, of c] by simp
  have "run_calls (c # cs) s = run_calls cs (run_call c s)"
    by (simp add: run_calls_def)
  then show ?case
    using Cons.IH [of "run_call c s"] step by simp
qed

subsection \<open>Classes made by \<open>DocStringInheritor\<close>\<close>

text \<open>
  Creating \<open>IFuzzable\<close> succeeds; its \<open>__repr__\<close>, which has no docstring in the
  source, takes the one of \<open>object\<close>.
\<close>

lemma IFuzzable_created:
  "DocStringInheritor_new ''IFuzzable'' [object_class] (Some IFuzzable_doc) IFuzzable_dict
     = Inr IFuzzable_class"
proof -
  have "\<not> isl (DocStringInheritor_new ''IFuzzable'' [object_class] (Some IFuzzable_doc) IFuzzable_dict)"
    by code_simp
  then show ?thesis
    by (simp add: IFuzzable_class_def)
qed

lemma IFuzzable_repr_doc:
  "map_option doc (class_getattr IFuzzable_class ''__repr__'') = Some (Some ''Return repr(self).'')"
  by code_simp

text \<open>
  Every class that \<open>DocStringInheritor.__new__\<close> returns can be instantiated.
\<close>

lemma DocStringInheritor_new_instantiable:
  "DocStringInheritor_new n bs d m = Inr c \<Longrightarrow> instantiate c = Inr (PyObject c)"
  by (auto simp: DocStringInheritor_new_def type_new_def instantiate_def Let_def
           split: sum.splits option.splits)

lemmas example_defs = example_state_def header_len_def empty_named_def fresh_string_def

lemmas Prefix_defs = Prefix_variant_def Prefix_get_child_data_def Prefix_encode_def

lemma qualified_name_header_len:
  "qualified_name 0 example_state = (Inr ''header.len'', example_state)"
  by (simp add: qualified_name_def name_def example_defs)

section \<open>The claims\<close>

text \<open>
  Claim C1. For an element of any variant, \<open>render_mutated(m)\<close> returns
  \<open>encode(v, child_data)\<close>: \<open>child_data\<close> is what the variant's \<open>get_child_data(m)\<close>
  returned, the qualified name is resolved in the store that call left, and \<open>v\<close> is the
  replacement that \<open>m\<close> maps the qualified name to when that name is a key of the mapping,
  and the element's \<open>original_value\<close> otherwise; the variant's \<open>encode\<close> runs in the store
  left by resolving the qualified name.
\<close>

theorem render_mutated_encodes:
  assumes "v_get_child_data V self m s = (Inr child_data, s0)"
    and "qualified_name self s0 = (Inr qn, s1)"
  shows "render_mutated V self m s =
           v_encode V self (case mutations (mutation_objects s0 m) qn of
                              Some v \<Rightarrow> v
                            | None \<Rightarrow> original_value (elements s0 self)) child_data s1"
  using render_mutated_dispatch [OF assms]
  by (simp split: option.splits)

text \<open>
  On the example store, for the length field \<open>header.len\<close>: under the \<open>Mutation\<close> that
  maps it the replacement 9999 is encoded with the default payload, under the one that
  replaces the payload the original value 4 is encoded with that payload.
\<close>

theorem render_mutated_encodes_witness:
  "v_get_child_data Prefix_variant 0 0 example_state = (Inr (PyStr ''xx''), example_state)
   \<and> v_get_child_data Prefix_variant 0 1 example_state = (Inr (PyStr ''AAAA''), example_state)
   \<and> qualified_name 0 example_state = (Inr ''header.len'', example_state)
   \<and> render_mutated Prefix_variant 0 0 example_state
       = v_encode Prefix_variant 0 (PyInt 9999) (PyStr ''xx'') example_state
   \<and> render_mutated Prefix_variant 0 1 example_state
       = v_encode Prefix_variant 0 (PyInt 4) (PyStr ''AAAA'') example_state
   \<and> fst (render_mutated Prefix_variant 0 0 example_state) = Inr (PyStr ''9999:xx'')
   \<and> fst (render_mutated Prefix_variant 0 1 example_state) = Inr (PyStr ''4:AAAA'')"
proof -
  have q: "qualified_name 0 example_state = (Inr ''header.len'', example_state)"
    by (rule qualified_name_header_len)
  have c0: "v_get_child_data Prefix_variant 0 0 example_state = (Inr (PyStr ''xx''), example_state)"
    by (simp add: Prefix_defs example_state_def)
  have c1: "v_get_child_data Prefix_variant 0 1 example_state = (Inr (PyStr ''AAAA''), example_state)"
    by (simp add: Prefix_defs example_state_def)
  have m0: "mutations (mutation_objects example_state 0) ''header.len'' = Some (PyInt 9999)"
    by (simp add: example_state_def)
  have m1: "mutations (mutation_objects example_state 1) ''header.len'' = None"
    by (simp add: example_state_def)
  have ov: "original_value (elements example_state 0) = PyInt 4"
    by (simp add: example_defs)
  have r0: "render_mutated Prefix_variant 0 0 example_state
              = v_encode Prefix_variant 0 (PyInt 9999) (PyStr ''xx'') example_state"
    using render_mutated_encodes [OF c0 q] m0 by simp
  have r1: "render_mutated Prefix_variant 0 1 example_state
              = v_encode Prefix_variant 0 (PyInt 4) (PyStr ''AAAA'') example_state"
    using render_mutated_encodes [OF c1 q] m1 ov by simp
  have e0: "fst (v_encode Prefix_variant 0 (PyInt 9999) (PyStr ''xx'') example_state)
              = Inr (PyStr ''9999:xx'')"
    by (simp add: Prefix_defs str_int_def str_nat.simps digit_char_def)
  have e1: "fst (v_encode Prefix_variant 0 (PyInt 4) (PyStr ''AAAA'') example_state)
              = Inr (PyStr ''4:AAAA'')"
    by (simp add: Prefix_defs str_int_def str_nat.simps digit_char_def)
  from r0 e0 have v0: "fst (render_mutated Prefix_variant 0 0 example_state) = Inr (PyStr ''9999:xx'')"
    by simp
  from r1 e1 have v1: "fst (render_mutated Prefix_variant 0 1 example_state) = Inr (PyStr ''4:AAAA'')"
    by simp
  from c0 c1 q r0 r1 v0 v1 show ?thesis
    by blast
qed

text \<open>
  Claim C2, evaluated on the code. The variant \<open>Broken\<close> does not define \<open>render\<close>,
  which \<open>IFuzzable\<close> marks abstract. Creating the class succeeds, instantiating it
  succeeds, \<open>render\<close> on the instance resolves to the one of \<open>IFuzzable\<close>, and that one
  returns \<open>None\<close>: the omission is signalled neither at definition nor at instantiation,
  since the metaclass derives from \<open>type\<close> and not from \<open>abc.ABCMeta\<close>.
\<close>

theorem abstract_operations_not_enforced:
  "\<not> isl (DocStringInheritor_new ''Broken'' [IFuzzable_class] None Broken_dict)
   \<and> map_of (cls_dict Broken_class) ''render'' = None
   \<and> map_option isabstractmethod (class_getattr Broken_class ''render'') = Some True
   \<and> map_option qualname (class_getattr Broken_class ''render'') = Some ''IFuzzable.render''
   \<and> instantiate Broken_class = Inr (PyObject Broken_class)
   \<and> render self s = (Inr PyNone, s)"
proof -
  have created: "\<not> isl (DocStringInheritor_new ''Broken'' [IFuzzable_class] None Broken_dict)"
    by code_simp
  have omitted: "map_of (cls_dict Broken_class) ''render'' = None"
    by code_simp
  have abstract: "map_option isabstractmethod (class_getattr Broken_class ''render'') = Some True"
    by code_simp
  have inherited:
    "map_option qualname (class_getattr Broken_class ''render'') = Some ''IFuzzable.render''"
    by code_simp
  have built: "instantiate Broken_class = Inr (PyObject Broken_class)"
    by code_simp
  have stub: "render self s = (Inr PyNone, s)"
    by (simp add: render_def)
  from created omitted abstract inherited built stub show ?thesis
    by blast
qed

text \<open>
  Claim C3, evaluated on the code. The body of \<open>mutate\<close> is a bare \<open>return\<close>: on
  every element and in every store it returns \<open>None\<close>, neither \<open>True\<close> nor \<open>False\<close>,
  and changes nothing; after any number of calls of \<open>mutate\<close> the store is the same and
  \<open>mutant_index\<close> still reads \<open>None\<close>, so no index in \<open>1..num_mutations()\<close> is ever
  reached. The docstring of \<open>mutate\<close> promises \<open>True\<close> while mutations are left and
  \<open>False\<close> on completion.
\<close>

theorem mutate_is_None:
  "mutate self s = (Inr PyNone, s)
   \<and> fst (mutate self s) \<noteq> Inr (PyBool True)
   \<and> fst (mutate self s) \<noteq> Inr (PyBool False)
   \<and> run_calls (replicate k (Mutate self)) s = s
   \<and> fst (mutant_index self (run_calls (replicate k (Mutate self)) s)) = Inr PyNone"
proof -
  have "run_calls (replicate k (Mutate self)) s = s"
    by (induction k) (simp_all add: run_calls_def mutate_def)
  then show ?thesis
    by (simp add: mutate_def mutant_index_def)
qed

text \<open>
  Claim C4 as stated fails for an element whose name is the empty string: the filter
  drops the empty name as it drops an empty context path, so the qualified name of such an
  element under the context path \<open>header\<close> is \<open>header\<close>, not \<open>header.\<close> .
\<close>

theorem qualified_name_empty_name_counterexample:
  "context_path 1 example_state = (Inr (Some ''header''), example_state)
   \<and> name 1 example_state = (Inr [], example_state)
   \<and> fst (qualified_name 1 example_state) = Inr ''header''
   \<and> fst (qualified_name 1 example_state) \<noteq> Inr (''header'' @ ''.'' @ [])"
  by (simp add: qualified_name_def name_def context_path_def example_defs)

text \<open>
  Claim C4, amended. When the name resolves to \<open>n\<close>, \<open>qualified_name\<close> equals \<open>n\<close>
  when the context path is absent, none or empty; otherwise it equals the context path
  followed by a dot and \<open>n\<close> when \<open>n\<close> is not empty, and the context path alone when
  \<open>n\<close> is empty.
\<close>

theorem qualified_name_joins:
  assumes "name self s = (Inr n, s1)"
  shows "fst (qualified_name self s) =
           Inr (case priv_context_path (elements s self) of
                  Absent \<Rightarrow> n
                | Present None \<Rightarrow> n
                | Present (Some cp) \<Rightarrow>
                    if cp = [] then n else if n = [] then cp else cp @ ''.'' @ n)"
proof -
  have "fst (name self (init_context_path self s)) = Inr n"
    using assms
    by (auto simp: name_def init_context_path_def update_element_def Let_def
             split: attr.splits option.splits)
  then show ?thesis
    by (simp add: qualified_name_alt Let_def split: attr.splits option.splits)
qed

text \<open>
  On the example store: the element named \<open>len\<close> under \<open>header\<close> has the
  qualified name \<open>header.len\<close>.
\<close>

theorem qualified_name_joins_witness:
  "name 0 example_state = (Inr ''len'', example_state)
   \<and> priv_context_path (elements example_state 0) = Present (Some ''header'')
   \<and> fst (qualified_name 0 example_state) = Inr ''header.len''"
proof -
  have n0: "name 0 example_state = (Inr ''len'', example_state)"
    by (simp add: name_def example_defs)
  have cp: "priv_context_path (elements example_state 0) = Present (Some ''header'')"
    by (simp add: example_defs)
  show ?thesis
    using n0 cp qualified_name_joins [OF n0] by simp
qed

text \<open>
  Claim C5, evaluated on the code. The body of the property \<open>mutant_index\<close> is a bare
  \<open>return\<close>: on every element and in every store, so also on one on which no mutation
  is active, it yields \<open>None\<close> and not the integer 0. Its docstring says
  \<open>0 => normal value\<close>.
\<close>

theorem mutant_index_is_None:
  "mutant_index self s = (Inr PyNone, s) \<and> fst (mutant_index self s) \<noteq> Inr (PyInt 0)"
  by (simp add: mutant_index_def)

text \<open>
  Claim C6. Once \<open>name\<close> has been read, reading it again gives the same string:
  immediately, and after any sequence of calls of the interface on any elements. When
  \<open>_name\<close> was \<open>None\<close>, the first read increments the counter and returns the type's
  name followed by the new counter value.
\<close>

theorem name_stable:
  assumes "name self s = (Inr n, s1)"
  shows "name self s1 = (Inr n, s1)
         \<and> fst (name self (run_calls cs s1)) = Inr n
         \<and> (priv_name (elements s self) = Present None \<longrightarrow>
              n = type_name (elements s self) @ str_int (name_counter s + 1)
              \<and> name_counter s1 = name_counter s + 1)"
proof -
  have named: "priv_name (elements s1 self) = Present (Some n)"
    using assms by (rule name_named)
  then have "priv_name (elements (run_calls cs s1) self) = Present (Some n)"
    by (rule run_calls_keeps_named)
  then have later: "fst (name self (run_calls cs s1)) = Inr n"
    by (simp add: name_of_named)
  have first: "priv_name (elements s self) = Present None \<longrightarrow>
              n = type_name (elements s self) @ str_int (name_counter s + 1)
              \<and> name_counter s1 = name_counter s + 1"
    using assms by (auto simp: name_def Let_def update_element_def)
  from named later first show ?thesis
    by (simp add: name_of_named)
qed

text \<open>
  On the example store: a fresh \<open>String\<close> is named \<open>String1\<close> by the first draw
  and keeps that name through later calls.
\<close>

theorem name_stable_witness:
  "name 2 example_state = (Inr ''String1'', snd (name 2 example_state))
   \<and> priv_name (elements example_state 2) = Present None
   \<and> name 2 (snd (name 2 example_state)) = (Inr ''String1'', snd (name 2 example_state))
   \<and> fst (name 2 (run_calls [QualifiedName 2, Name 3, SetContextPath 2 (Some ''body''),
                               RenderMutated 2 0, Mutate 2, Reset 2]
                     (snd (name 2 example_state)))) = Inr ''String1''
   \<and> name_counter (snd (name 2 example_state)) = 1"
proof -
  have h: "name 2 example_state = (Inr ''String1'', snd (name 2 example_state))"
    by (simp add: name_def example_defs Let_def str_int_def str_nat.simps digit_char_def)
  have u: "priv_name (elements example_state 2) = Present None"
    by (simp add: example_defs)
  have c: "name_counter example_state = 0"
    by (simp add: example_state_def)
  show ?thesis
    using h u c
      name_stable [OF h, of "[QualifiedName 2, Name 3, SetContextPath 2 (Some ''body''),
                               RenderMutated 2 0, Mutate 2, Reset 2]"]
    by simp
qed

text \<open>
  Claim C7. Two distinct elements of the same type, both unnamed, whose names are first
  read one after the other (with any calls of the interface in between) get different
  names, and the counter strictly increases at each draw.
\<close>

theorem auto_names_distinct:
  assumes "a \<noteq> b"
    and "priv_name (elements s a) = Present None"
    and "priv_name (elements s b) = Present None"
    and "type_name (elements s a) = type_name (elements s b)"
    and "name a s = (Inr na, s1)"
    and "name b (run_calls cs s1) = (Inr nb, s2)"
  shows "na \<noteq> nb \<and> name_counter s < name_counter s1 \<and> name_counter s1 < name_counter s2"
proof -
  let ?T = "type_name (elements s b)"
  let ?k = "name_counter s + 1"
  let ?s' = "run_calls cs s1"
  have s1: "s1 = update_element a (\<lambda>e. e\<lparr>priv_name := Present (Some na)\<rparr>)
                   (s\<lparr>name_counter := ?k\<rparr>)"
    and na: "na = ?T @ str_int ?k"
    using assms(2,4,5) by (auto simp: name_def Let_def update_element_def)
  from s1 have k1: "name_counter s1 = ?k"
    by (simp add: update_element_def)
  from s1 assms(1,3) have b1: "priv_name (elements s1 b) = Present None"
    by (simp add: update_element_def)
  from s1 have t1: "type_name (elements s1 b) = ?T"
    by (auto simp: update_element_def)
  have inv: "?k \<le> name_counter ?s' \<and>
         (priv_name (elements ?s' b) = Present None \<or>
          (\<exists>j. ?k < j \<and> j \<le> name_counter ?s' \<and>
               priv_name (elements ?s' b) = Present (Some (?T @ str_int j))))"
    using run_calls_later [of ?k s1 b cs] k1 b1 t1 by simp
  have t': "type_name (elements ?s' b) = ?T"
    using t1 by simp
  from inv have "nb \<noteq> na \<and> ?k < name_counter s2"
  proof (elim conjE disjE exE)
    assume le: "?k \<le> name_counter ?s'" and none: "priv_name (elements ?s' b) = Present None"
    from none assms(6) t' have "nb = ?T @ str_int (name_counter ?s' + 1)"
      and "name_counter s2 = name_counter ?s' + 1"
      by (auto simp: name_def Let_def update_element_def)
    with le na show ?thesis
      by (auto dest: str_int_inj)
  next
    fix j
    assume lt: "?k < j" and le: "j \<le> name_counter ?s'"
      and some: "priv_name (elements ?s' b) = Present (Some (?T @ str_int j))"
    from some assms(6) have "nb = ?T @ str_int j" and "s2 = ?s'"
      by (auto simp: name_def)
    with lt le na show ?thesis
      by (auto dest: str_int_inj)
  qed
  with k1 show ?thesis by auto
qed

text \<open>
  On the example store: of two fresh \<open>String\<close> elements the first is named
  \<open>String1\<close>; a third one draws \<open>String2\<close> in between, and the second is named
  \<open>String3\<close>.
\<close>

theorem auto_names_distinct_witness:
  "(2::nat) \<noteq> 3
   \<and> priv_name (elements example_state 2) = Present None
   \<and> priv_name (elements example_state 3) = Present None
   \<and> type_name (elements example_state 2) = type_name (elements example_state 3)
   \<and> fst (name 2 example_state) = Inr ''String1''
   \<and> fst (name 3 (run_calls [QualifiedName 2, RenderMutated 0 0, Name 4]
                      (snd (name 2 example_state)))) = Inr ''String3''
   \<and> ''String1'' \<noteq> ''String3''"
proof -
  let ?cs = "[QualifiedName 2, RenderMutated 0 0, Name 4]"
  have h1: "(2::nat) \<noteq> 3" by simp
  have h2: "priv_name (elements example_state 2) = Present None"
    by (simp add: example_defs)
  have h3: "priv_name (elements example_state 3) = Present None"
    by (simp add: example_defs)
  have h4: "type_name (elements example_state 2) = type_name (elements example_state 3)"
    by (simp add: example_defs)
  have h5: "name 2 example_state = (Inr ''String1'', snd (name 2 example_state))"
    by (simp add: name_def example_defs Let_def str_int_def str_nat.simps digit_char_def)
  have f6: "fst (name 3 (run_calls ?cs (snd (name 2 example_state)))) = Inr ''String3''"
    by (simp add: run_calls_def render_mutated_snd qualified_name_def name_def example_defs
                  Let_def update_element_def str_int_def str_nat.simps digit_char_def)
  have h6: "name 3 (run_calls ?cs (snd (name 2 example_state)))
              = (Inr ''String3'', snd (name 3 (run_calls ?cs (snd (name 2 example_state)))))"
    using f6 by (metis prod.collapse)
  have f5: "fst (name 2 example_state) = Inr ''String1''"
    using h5 by (metis fst_conv)
  show ?thesis
    using h2 h3 h4 f5 f6 auto_names_distinct [OF h1 h2 h3 h4 h5 h6]
    by simp
qed

text \<open>
  Claim C8 as stated fails for a variant whose \<open>get_child_data\<close> writes into the
  \<open>Mutation\<close> it is handed: \<open>render_mutated\<close> passes the \<open>Mutation\<close> itself to the hook,
  and after the call the mapping, empty before, has the key the hook added.
\<close>

theorem render_mutated_hook_writes_counterexample:
  "mutations (mutation_objects example_state 2) = Map.empty
   \<and> mutations (mutation_objects (snd (render_mutated Marking_variant 0 2 example_state)) 2)
         ''visited'' = Some (PyBool True)
   \<and> mutation_objects (snd (render_mutated Marking_variant 0 2 example_state)) 2
       \<noteq> mutation_objects example_state 2"
proof -
  let ?s0 = "snd (Marking_get_child_data 0 2 example_state)"
  have before: "mutations (mutation_objects example_state 2) = Map.empty"
    by (simp add: example_state_def)
  have hook: "v_get_child_data Marking_variant 0 2 example_state = (Inr PyNone, ?s0)"
    by (simp add: Marking_variant_def Marking_get_child_data_def)
  have q: "qualified_name 0 ?s0 = (Inr ''header.len'', ?s0)"
    by (simp add: Marking_get_child_data_def qualified_name_def name_def example_defs)
  have "snd (render_mutated Marking_variant 0 2 example_state) = ?s0"
    using render_mutated_dispatch [OF hook q]
    by (simp add: Marking_variant_def encode_def)
  then have after:
    "mutations (mutation_objects (snd (render_mutated Marking_variant 0 2 example_state)) 2)
       ''visited'' = Some (PyBool True)"
    by (simp add: Marking_get_child_data_def)
  from before after show ?thesis
    by (metis option.distinct(1))
qed

text \<open>
  Claim C8, amended. \<open>render_mutated\<close> writes no \<open>Mutation\<close> itself: when the
  \<open>get_child_data\<close> and the \<open>encode\<close> of the element's variant leave every \<open>Mutation\<close>
  as it was, so does \<open>render_mutated\<close>, the \<open>get_child_data\<close> call inside it included,
  also when it raises.
\<close>

theorem render_mutated_reads_only:
  assumes "\<And>r mm t. mutation_objects (snd (v_get_child_data V r mm t)) = mutation_objects t"
    and "\<And>r v c t. mutation_objects (snd (v_encode V r v c t)) = mutation_objects t"
  shows "mutation_objects (snd (v_get_child_data V self m s)) = mutation_objects s
         \<and> mutation_objects (snd (render_mutated V self m s)) = mutation_objects s"
proof -
  obtain r s0 where hook: "v_get_child_data V self m s = (r, s0)"
    by (cases "v_get_child_data V self m s")
  have s0: "mutation_objects s0 = mutation_objects s"
    using assms(1) [of self m s] hook by simp
  obtain r' s1 where q: "qualified_name self s0 = (r', s1)"
    by (cases "qualified_name self s0")
  have s1: "mutation_objects s1 = mutation_objects s0"
    using qualified_name_mutation_objects [of self s0] q by simp
  have "mutation_objects (snd (render_mutated V self m s)) = mutation_objects s"
  proof (cases r)
    case (Inl e)
    with hook s0 show ?thesis
      by (simp add: render_mutated_hook_error)
  next
    case (Inr cd)
    show ?thesis
    proof (cases r')
      case (Inl e)
      with hook q Inr s0 s1 show ?thesis
        by (simp add: render_mutated_name_error)
    next
      case (Inr qn) note qn = this
      have "render_mutated V self m s =
              v_encode V self (case mutations (mutation_objects s0 m) qn of
                                 None \<Rightarrow> original_value (elements s0 self)
                               | Some v \<Rightarrow> v) cd s1"
        using hook q \<open>r = Inr cd\<close> qn by (simp add: render_mutated_dispatch)
      then show ?thesis
        using assms(2) s0 s1 by simp
    qed
  qed
  with hook s0 show ?thesis by simp
qed

text \<open>
  On the example store, for the length field, whose hooks read the \<open>Mutation\<close> and write
  nothing, and for an element with the hooks of \<open>IFuzzable\<close>.
\<close>

theorem render_mutated_reads_only_witness:
  "(\<forall>r mm t. mutation_objects (snd (v_get_child_data Prefix_variant r mm t)) = mutation_objects t)
   \<and> (\<forall>r v c t. mutation_objects (snd (v_encode Prefix_variant r v c t)) = mutation_objects t)
   \<and> fst (render_mutated Prefix_variant 0 1 example_state) = Inr (PyStr ''4:AAAA'')
   \<and> mutation_objects (snd (render_mutated Prefix_variant 0 1 example_state))
       = mutation_objects example_state
   \<and> mutation_objects (snd (render_mutated IFuzzable_variant 0 0 example_state))
       = mutation_objects example_state"
proof -
  have g: "mutation_objects (snd (v_get_child_data Prefix_variant r mm t)) = mutation_objects t"
    for r mm t
    by (simp add: Prefix_defs)
  have e: "mutation_objects (snd (v_encode Prefix_variant r v c t)) = mutation_objects t"
    for r v c t
    by (simp add: Prefix_defs)
  have g': "mutation_objects (snd (v_get_child_data IFuzzable_variant r mm t)) = mutation_objects t"
    for r mm t
    by (simp add: IFuzzable_variant_def get_child_data_def)
  have e': "mutation_objects (snd (v_encode IFuzzable_variant r v c t)) = mutation_objects t"
    for r v c t
    by (simp add: IFuzzable_variant_def encode_def)
  have hook: "v_get_child_data Prefix_variant 0 1 example_state
                = (Inr (PyStr ''AAAA''), example_state)"
    by (simp add: Prefix_defs example_state_def)
  have "render_mutated Prefix_variant 0 1 example_state
          = v_encode Prefix_variant 0 (PyInt 4) (PyStr ''AAAA'') example_state"
    using render_mutated_dispatch [OF hook qualified_name_header_len]
    by (simp add: example_defs)
  then have val: "fst (render_mutated Prefix_variant 0 1 example_state) = Inr (PyStr ''4:AAAA'')"
    by (simp add: Prefix_defs str_int_def str_nat.simps digit_char_def)
  from g e val
    render_mutated_reads_only [of Prefix_variant 0 1 example_state, OF g e]
    render_mutated_reads_only [of IFuzzable_variant 0 0 example_state, OF g' e']
  show ?thesis
    by blast
qed

text \<open>
  Claim C9 as stated fails for a variant whose \<open>get_child_data\<close> reads the \<open>Mutation\<close>:
  the length field renders the payload it is given along with its own value, so a
  \<open>Mutation\<close> that replaces only \<open>header.payload\<close>, and omits \<open>header.len\<close>, renders
  \<open>header.len\<close> as \<open>4:AAAA\<close>, and an empty one as \<open>4:xx\<close>.
\<close>

theorem render_mutated_addressing_miss_counterexample:
  "qualified_name 0 example_state = (Inr ''header.len'', example_state)
   \<and> mutations (mutation_objects example_state 1) ''header.len'' = None
   \<and> mutations (mutation_objects example_state 2) = Map.empty
   \<and> fst (render_mutated Prefix_variant 0 1 example_state) = Inr (PyStr ''4:AAAA'')
   \<and> fst (render_mutated Prefix_variant 0 2 example_state) = Inr (PyStr ''4:xx'')
   \<and> render_mutated Prefix_variant 0 1 example_state
       \<noteq> render_mutated Prefix_variant 0 2 example_state"
proof -
  have miss: "mutations (mutation_objects example_state 1) ''header.len'' = None"
    by (simp add: example_state_def)
  have emp: "mutations (mutation_objects example_state 2) = Map.empty"
    by (simp add: example_state_def)
  have h1: "v_get_child_data Prefix_variant 0 1 example_state
              = (Inr (PyStr ''AAAA''), example_state)"
    by (simp add: Prefix_defs example_state_def)
  have h2: "v_get_child_data Prefix_variant 0 2 example_state
              = (Inr (PyStr ''xx''), example_state)"
    by (simp add: Prefix_defs example_state_def)
  have "render_mutated Prefix_variant 0 1 example_state
          = v_encode Prefix_variant 0 (PyInt 4) (PyStr ''AAAA'') example_state"
    using render_mutated_dispatch [OF h1 qualified_name_header_len]
    by (simp add: example_defs)
  then have r1: "fst (render_mutated Prefix_variant 0 1 example_state) = Inr (PyStr ''4:AAAA'')"
    by (simp add: Prefix_defs str_int_def str_nat.simps digit_char_def)
  have "render_mutated Prefix_variant 0 2 example_state
          = v_encode Prefix_variant 0 (PyInt 4) (PyStr ''xx'') example_state"
    using render_mutated_dispatch [OF h2 qualified_name_header_len]
    by (simp add: example_defs)
  then have r2: "fst (render_mutated Prefix_variant 0 2 example_state) = Inr (PyStr ''4:xx'')"
    by (simp add: Prefix_defs str_int_def str_nat.simps digit_char_def)
  have "render_mutated Prefix_variant 0 1 example_state
          \<noteq> render_mutated Prefix_variant 0 2 example_state"
  proof
    assume "render_mutated Prefix_variant 0 1 example_state
              = render_mutated Prefix_variant 0 2 example_state"
    then have "fst (render_mutated Prefix_variant 0 1 example_state)
                 = fst (render_mutated Prefix_variant 0 2 example_state)"
      by (rule arg_cong)
    with r1 r2 show False by simp
  qed
  with qualified_name_header_len miss emp r1 r2 show ?thesis
    by blast
qed

text \<open>
  Claim C9, amended. When the \<open>get_child_data\<close> of the element's variant, called with
  either \<open>Mutation\<close>, returns the same and leaves the same store, with every \<open>Mutation\<close>
  as it was (the one of \<open>IFuzzable\<close> does: it ignores its argument), and the mapping of
  one \<open>Mutation\<close> omits the element's qualified name while the mapping of the other is
  empty, \<open>render_mutated\<close> gives the same result and leaves the same store with both.
\<close>

theorem render_mutated_addressing_miss:
  assumes "v_get_child_data V self m s = v_get_child_data V self m0 s"
    and "mutation_objects (snd (v_get_child_data V self m s)) = mutation_objects s"
    and "fst (qualified_name self (snd (v_get_child_data V self m s))) = Inr qn"
    and "mutations (mutation_objects s m) qn = None"
    and "mutations (mutation_objects s m0) = Map.empty"
  shows "render_mutated V self m s = render_mutated V self m0 s"
proof -
  obtain r s0 where hook: "v_get_child_data V self m s = (r, s0)"
    by (cases "v_get_child_data V self m s")
  with assms(1) have hook0: "v_get_child_data V self m0 s = (r, s0)"
    by simp
  from hook assms(2) have mo: "mutation_objects s0 = mutation_objects s"
    by simp
  obtain s1 where q: "qualified_name self s0 = (Inr qn, s1)"
    using assms(3) hook by (cases "qualified_name self s0") auto
  show ?thesis
  proof (cases r)
    case (Inl e)
    with hook hook0 show ?thesis
      by (simp add: render_mutated_hook_error)
  next
    case (Inr cd)
    with hook hook0 q mo assms(4,5) show ?thesis
      by (simp add: render_mutated_dispatch)
  qed
qed

text \<open>
  On the example store: the length field renders as \<open>4:xx\<close> under a \<open>Mutation\<close> that
  replaces only \<open>trailer.crc\<close>, as under the empty one; an element with the hooks of
  \<open>IFuzzable\<close> renders the same under a \<open>Mutation\<close> that replaces only \<open>header.payload\<close>
  as under the empty one.
\<close>

theorem render_mutated_addressing_miss_witness:
  "v_get_child_data Prefix_variant 0 3 example_state
     = v_get_child_data Prefix_variant 0 2 example_state
   \<and> mutation_objects (snd (v_get_child_data Prefix_variant 0 3 example_state))
       = mutation_objects example_state
   \<and> fst (qualified_name 0 (snd (v_get_child_data Prefix_variant 0 3 example_state)))
       = Inr ''header.len''
   \<and> mutations (mutation_objects example_state 3) ''header.len'' = None
   \<and> mutations (mutation_objects example_state 3) ''trailer.crc'' = Some (PyInt 7)
   \<and> mutations (mutation_objects example_state 2) = Map.empty
   \<and> render_mutated Prefix_variant 0 3 example_state
       = render_mutated Prefix_variant 0 2 example_state
   \<and> render_mutated IFuzzable_variant 0 1 example_state
       = render_mutated IFuzzable_variant 0 2 example_state"
proof -
  have hook: "v_get_child_data Prefix_variant 0 mm example_state
                = (Inr (case mutations (mutation_objects example_state mm) ''header.payload'' of
                          None \<Rightarrow> PyStr ''xx'' | Some v \<Rightarrow> v), example_state)" for mm
    by (simp add: Prefix_defs)
  have same: "v_get_child_data Prefix_variant 0 3 example_state
                = v_get_child_data Prefix_variant 0 2 example_state"
    by (simp add: hook) (simp add: example_state_def)
  have ro: "mutation_objects (snd (v_get_child_data Prefix_variant 0 3 example_state))
              = mutation_objects example_state"
    by (simp add: hook)
  have q: "fst (qualified_name 0 (snd (v_get_child_data Prefix_variant 0 3 example_state)))
             = Inr ''header.len''"
    by (simp add: hook qualified_name_header_len)
  have miss: "mutations (mutation_objects example_state 3) ''header.len'' = None"
    by (simp add: example_state_def)
  have other: "mutations (mutation_objects example_state 3) ''trailer.crc'' = Some (PyInt 7)"
    by (simp add: example_state_def)
  have emp: "mutations (mutation_objects example_state 2) = Map.empty"
    by (simp add: example_state_def)
  have same': "v_get_child_data IFuzzable_variant 0 1 example_state
                 = v_get_child_data IFuzzable_variant 0 2 example_state"
    by (simp add: IFuzzable_variant_def get_child_data_def)
  have ro': "mutation_objects (snd (v_get_child_data IFuzzable_variant 0 1 example_state))
               = mutation_objects example_state"
    by (simp add: IFuzzable_variant_def get_child_data_def)
  have q': "fst (qualified_name 0 (snd (v_get_child_data IFuzzable_variant 0 1 example_state)))
              = Inr ''header.len''"
    by (simp add: IFuzzable_variant_def get_child_data_def qualified_name_header_len)
  have miss': "mutations (mutation_objects example_state 1) ''header.len'' = None"
    by (simp add: example_state_def)
  from same ro q miss other emp
    render_mutated_addressing_miss [OF same ro q miss emp]
    render_mutated_addressing_miss [OF same' ro' q' miss' emp]
  show ?thesis
    by blast
qed

text \<open>
  Claim C10. On an element whose \<open>_context_path\<close> was never set, reading
  \<open>context_path\<close> fails with a missing-attribute error; \<open>qualified_name\<close> gives what
  \<open>name\<close> gives and stores \<open>None\<close> as the context path, so that reading
  \<open>context_path\<close> afterwards returns \<open>None\<close>.
\<close>

theorem qualified_name_initialises_context_path:
  assumes "priv_context_path (elements s self) = Absent"
  shows "fst (context_path self s) = Inl (AttributeError ''_context_path'')
         \<and> fst (qualified_name self s) = fst (name self s)
         \<and> priv_context_path (elements (snd (qualified_name self s)) self) = Present None
         \<and> context_path self (snd (qualified_name self s)) = (Inr None, snd (qualified_name self s))"
  using assms
  by (auto simp: qualified_name_def name_def context_path_def update_element_def Let_def
           split: attr.splits option.splits)

text \<open>
  On the example store, for a fresh \<open>String\<close>.
\<close>

theorem qualified_name_initialises_context_path_witness:
  "priv_context_path (elements example_state 2) = Absent
   \<and> fst (context_path 2 example_state) = Inl (AttributeError ''_context_path'')
   \<and> fst (qualified_name 2 example_state) = Inr ''String1''
   \<and> fst (name 2 example_state) = Inr ''String1''
   \<and> fst (context_path 2 (snd (qualified_name 2 example_state))) = Inr None"
proof -
  have a: "priv_context_path (elements example_state 2) = Absent"
    by (simp add: example_defs)
  have n2: "fst (name 2 example_state) = Inr ''String1''"
    by (simp add: name_def example_defs Let_def str_int_def str_nat.simps digit_char_def)
  show ?thesis
    using a n2 qualified_name_initialises_context_path [OF a] by simp
qed

end
